theory Spec2Isabelle
  imports Complex_Main "HOL-Library.Multiset"
begin

section \<open>Python values\<close>

text \<open>
  The recorder of \<^verbatim>\<open>rigidbodies_dataset.py\<close> is a Python class. Its floats are
  modelled as \<^typ>\<open>real\<close> (comparisons and the arithmetic of the force computation are
  the exact ones), its ints as \<^typ>\<open>int\<close>, and every exception the code can raise is a
  value of \<open>py_error\<close>.
\<close>

datatype py_error = KeyError | IndexError | ValueError

type_synonym vector3 = "real \<times> real \<times> real"

section \<open>Data model\<close>

text \<open>
  \<^verbatim>\<open>class PhysicsInfo\<close>: the model record and the four physics scalars. The record is
  an object of the asset library and stays abstract (\<open>'r\<close>).
\<close>

record 'r PhysicsInfo =
  model_record :: 'r
  mass :: real
  dynamic_friction :: real
  static_friction :: real
  bounciness :: real

text \<open>
  The commands are the dictionaries the methods return, one constructor for each
  \<^verbatim>\<open>$type\<close> this file builds. A command built by the base class (the add-object command of
  \<^verbatim>\<open>add_transforms_object\<close>) is \<open>Base_command\<close>.
\<close>

datatype 'c command =
    Base_command 'c
  | Set_mass int real
  | Set_physic_material int real real real
  | Apply_force_to_object vector3 int
  | Send_collisions bool bool bool "string list"
  | Send_rigidbodies string

text \<open>
  The state of a \<^verbatim>\<open>RigidbodiesDataset\<close>. The fields of the base class
  \<^verbatim>\<open>TransformsDataset\<close> are the component \<open>base\<close>, of an abstract type: the methods of
  the base class are parameters of the functions below. \<open>physics_info\<close> is a Python dict,
  kept as an association list in insertion order, since \<^verbatim>\<open>keys()\<close> is iterated.
\<close>

record ('r, 'b) RigidbodiesDataset =
  base :: 'b
  masses :: "real list"
  static_frictions :: "real list"
  dynamic_frictions :: "real list"
  bouncinesses :: "real list"
  physics_info :: "(int \<times> 'r PhysicsInfo) list"

text \<open>
  \<^verbatim>\<open>d[k] = v\<close> on a dict: an existing key keeps its place and takes the new value, a new
  key goes to the end.
\<close>

fun dict_set :: "'k \<Rightarrow> 'v \<Rightarrow> ('k \<times> 'v) list \<Rightarrow> ('k \<times> 'v) list" where
  "dict_set k v [] = [(k, v)]"
| "dict_set k v (p # ps) = (if fst p = k then (k, v) # ps else p # dict_set k v ps)"

text \<open>\<^verbatim>\<open>d[k]\<close> on a dict raises \<^verbatim>\<open>KeyError\<close> for a missing key.\<close>

definition dict_get :: "('k \<rightharpoonup> 'v) \<Rightarrow> 'k \<Rightarrow> py_error + 'v" where
  "dict_get d k = (case d k of None \<Rightarrow> Inl KeyError | Some v \<Rightarrow> Inr v)"

section \<open>Object creation\<close>

text \<open>
  \<^verbatim>\<open>clear_static_data\<close>: the base class clears its own arrays
  (\<open>super_clear_static_data\<close>), then the four arrays are set to empty arrays.
\<close>

definition clear_static_data ::
  "('b \<Rightarrow> 'b) \<Rightarrow> ('r, 'b) RigidbodiesDataset \<Rightarrow> ('r, 'b) RigidbodiesDataset" where
  "clear_static_data super_clear_static_data s =
     s\<lparr>base := super_clear_static_data (base s),
       masses := [],
       static_frictions := [],
       dynamic_frictions := [],
       bouncinesses := []\<rparr>"

text \<open>
  \<^verbatim>\<open>__init__\<close>: the constructor of the base class gives \<open>b\<close>, the static data is
  cleared, and the physics-info dict starts empty.
\<close>

definition init :: "('b \<Rightarrow> 'b) \<Rightarrow> 'b \<Rightarrow> ('r, 'b) RigidbodiesDataset" where
  "init super_clear_static_data b =
     (clear_static_data super_clear_static_data
        \<lparr>base = b, masses = [], static_frictions = [], dynamic_frictions = [],
         bouncinesses = [], physics_info = []\<rparr>)\<lparr>physics_info := []\<rparr>"

text \<open>
  \<^verbatim>\<open>add_physics_object\<close>. \<open>o_id\<close> is the optional id; \<open>unique_id\<close> is what
  \<^verbatim>\<open>self.get_unique_id()\<close> returns when it is called. \<open>add_transforms_object\<close> is the
  method of the base class: from the base state, the id, the record, the position and the
  rotation it gives the add-object command and the new base state. \<^verbatim>\<open>np.append\<close> on a
  one-dimensional array puts the value at the end.
\<close>

definition add_physics_object ::
  "('b \<Rightarrow> int \<Rightarrow> 'r \<Rightarrow> 'p \<Rightarrow> 'p \<Rightarrow> 'c \<times> 'b) \<Rightarrow> int \<Rightarrow> ('r, 'b) RigidbodiesDataset \<Rightarrow>
   'r \<Rightarrow> 'p \<Rightarrow> 'p \<Rightarrow> real \<Rightarrow> real \<Rightarrow> real \<Rightarrow> real \<Rightarrow> int option \<Rightarrow>
   'c command list \<times> ('r, 'b) RigidbodiesDataset" where
  "add_physics_object add_transforms_object unique_id s rec position rotation
       m d_friction s_friction bounce o_id =
     (let oid = (case o_id of None \<Rightarrow> unique_id | Some i \<Rightarrow> i);
          (add_object, b) = add_transforms_object (base s) oid rec position rotation;
          s1 = s\<lparr>base := b\<rparr>;
          s2 = s1\<lparr>masses := masses s1 @ [m]\<rparr>;
          s3 = s2\<lparr>dynamic_frictions := dynamic_frictions s2 @ [d_friction]\<rparr>;
          s4 = s3\<lparr>static_frictions := static_frictions s3 @ [s_friction]\<rparr>;
          s5 = s4\<lparr>bouncinesses := bouncinesses s4 @ [bounce]\<rparr>;
          s6 = s5\<lparr>physics_info := dict_set oid
                 \<lparr>model_record = rec, mass = m, dynamic_friction = d_friction,
                  static_friction = s_friction, bounciness = bounce\<rparr> (physics_info s5)\<rparr>
      in ([Base_command add_object,
           Set_mass oid m,
           Set_physic_material oid d_friction s_friction bounce], s6))"

text \<open>
  \<^verbatim>\<open>add_physics_object_default\<close>. \<open>PHYSICS_INFO\<close> is the module's registry, a dict from
  model names to \<open>PhysicsInfo\<close>, loaded from a data file when the module is imported: a
  parameter here. The lookup \<^verbatim>\<open>PHYSICS_INFO[name]\<close> is the first statement; when it
  raises, the state is the one the method was called in.
\<close>

definition add_physics_object_default ::
  "(string \<rightharpoonup> 'r PhysicsInfo) \<Rightarrow> ('b \<Rightarrow> int \<Rightarrow> 'r \<Rightarrow> 'p \<Rightarrow> 'p \<Rightarrow> 'c \<times> 'b) \<Rightarrow> int \<Rightarrow>
   ('r, 'b) RigidbodiesDataset \<Rightarrow> string \<Rightarrow> 'p \<Rightarrow> 'p \<Rightarrow> int option \<Rightarrow>
   (py_error + 'c command list) \<times> ('r, 'b) RigidbodiesDataset" where
  "add_physics_object_default PHYSICS_INFO add_transforms_object unique_id s name
       position rotation o_id =
     (case dict_get PHYSICS_INFO name of
        Inl e \<Rightarrow> (Inl e, s)
      | Inr info \<Rightarrow>
          (let (commands, s') =
                 add_physics_object add_transforms_object unique_id s (model_record info)
                   position rotation (mass info) (dynamic_friction info)
                   (static_friction info) (bounciness info) o_id
           in (Inr commands, s')))"

text \<open>
  \<^verbatim>\<open>get_objects_by_mass\<close>: the keys of the dict in their order, each kept when the mass
  looked up under it is below the threshold. A key of the dict is never missing from it;
  the model gives the lookup's error its branch all the same.
\<close>

fun objects_below :: "(int \<rightharpoonup> 'r PhysicsInfo) \<Rightarrow> real \<Rightarrow> int list \<Rightarrow> py_error + int list" where
  "objects_below d m [] = Inr []"
| "objects_below d m (k # ks) =
     (case dict_get d k of
        Inl e \<Rightarrow> Inl e
      | Inr info \<Rightarrow>
          (case objects_below d m ks of
             Inl e \<Rightarrow> Inl e
           | Inr os \<Rightarrow> Inr (if mass info < m then k # os else os)))"

definition get_objects_by_mass :: "('r, 'b) RigidbodiesDataset \<Rightarrow> real \<Rightarrow> py_error + int list" where
  "get_objects_by_mass s m =
     objects_below (map_of (physics_info s)) m (map fst (physics_info s))"

section \<open>The random module\<close>

text \<open>
  The functions of Python's \<^verbatim>\<open>random\<close> module that the recorder calls, each taking the
  raw value the generator produced as its first argument: a natural number behind
  \<^verbatim>\<open>_randbelow\<close>, a real in \<open>[0, 1)\<close> behind \<^verbatim>\<open>random()\<close>.

  \<^verbatim>\<open>randint(a, b)\<close> is \<^verbatim>\<open>randrange(a, b + 1)\<close>: \<^verbatim>\<open>a + _randbelow(b + 1 - a)\<close> when the
  width is positive, \<^verbatim>\<open>ValueError\<close> (empty range) otherwise.
\<close>

definition randint :: "nat \<Rightarrow> int \<Rightarrow> int \<Rightarrow> py_error + int" where
  "randint raw a b =
     (let width = b + 1 - a
      in if 0 < width then Inr (a + int (raw mod nat width)) else Inl ValueError)"

text \<open>\<^verbatim>\<open>uniform(a, b)\<close> is \<^verbatim>\<open>a + (b - a) * random()\<close>.\<close>

definition uniform :: "real \<Rightarrow> real \<Rightarrow> real \<Rightarrow> real" where
  "uniform raw a b = a + (b - a) * raw"

text \<open>
  \<^verbatim>\<open>shuffle(x)\<close>: for \<open>i\<close> from \<open>len(x) - 1\<close> down to \<open>1\<close>, \<^verbatim>\<open>j = _randbelow(i + 1)\<close>
  and \<^verbatim>\<open>x[i], x[j] = x[j], x[i]\<close>. \<open>raw i\<close> is the generator's value at index \<open>i\<close>.
\<close>

fun shuffle_from :: "(nat \<Rightarrow> nat) \<Rightarrow> nat \<Rightarrow> 'a list \<Rightarrow> 'a list" where
  "shuffle_from raw 0 x = x"
| "shuffle_from raw (Suc i) x =
     (let j = raw (Suc i) mod (Suc i + 1)
      in shuffle_from raw i (x[Suc i := x ! j, j := x ! Suc i]))"

definition shuffle :: "(nat \<Rightarrow> nat) \<Rightarrow> 'a list \<Rightarrow> 'a list" where
  "shuffle raw x = shuffle_from raw (length x - 1) x"

text \<open>
  What the generator produces during one call of \<^verbatim>\<open>get_falling_commands\<close>: the values
  behind the shuffle, the value behind \<^verbatim>\<open>randint\<close>, and for the \<open>i\<close>-th launched object
  the four values of \<^verbatim>\<open>random()\<close> behind the three components of the direction and the
  magnitude of the force, in the order the code draws them.
\<close>

record random_draws =
  shuffle_draws :: "nat \<Rightarrow> nat"
  randint_draw :: nat
  uniform_draws :: "nat \<Rightarrow> real \<times> real \<times> real \<times> real"

section \<open>Force-application scheduling\<close>

text \<open>\<^verbatim>\<open>np.linalg.norm\<close> of a vector of three components, division and product by a scalar.\<close>

definition norm3 :: "vector3 \<Rightarrow> real" where
  "norm3 v = (case v of (x, y, z) \<Rightarrow> sqrt (x\<^sup>2 + y\<^sup>2 + z\<^sup>2))"

definition div3 :: "vector3 \<Rightarrow> real \<Rightarrow> vector3" where
  "div3 v c = (case v of (x, y, z) \<Rightarrow> (x / c, y / c, z / c))"

definition mul3 :: "vector3 \<Rightarrow> real \<Rightarrow> vector3" where
  "mul3 v c = (case v of (x, y, z) \<Rightarrow> (x * c, y * c, z * c))"

text \<open>
  The body of the loop of \<^verbatim>\<open>get_falling_commands\<close>, by its local variables.
  \<open>force_dir_raw\<close> is the array of the three uniform draws, \<open>force_dir\<close> the array divided
  by its norm, \<open>force\<close> the direction times the fourth uniform draw (between
  \<open>min_force\<close> and \<open>max_force\<close>).
\<close>

definition force_dir_raw :: "real \<times> real \<times> real \<times> real \<Rightarrow> vector3" where
  "force_dir_raw u =
     (case u of (ux, uy, uz, uf) \<Rightarrow>
        (uniform ux (- 0.125) 0.125, uniform uy 0.7 1, uniform uz (- 0.125) 0.125))"

definition force_dir :: "real \<times> real \<times> real \<times> real \<Rightarrow> vector3" where
  "force_dir u = div3 (force_dir_raw u) (norm3 (force_dir_raw u))"

definition force :: "real \<times> real \<times> real \<times> real \<Rightarrow> real \<Rightarrow> vector3" where
  "force u m =
     (case u of (ux, uy, uz, uf) \<Rightarrow>
        (let min_force = m * 2;
             max_force = m * 4
         in mul3 (force_dir u) (uniform uf min_force max_force)))"

text \<open>The inner loop \<^verbatim>\<open>for j in range(10, 30): per_frame_commands.append([])\<close>.\<close>

definition wait_some_frames :: "'c command list list \<Rightarrow> 'c command list list" where
  "wait_some_frames per_frame_commands =
     fold (\<lambda>j acc. acc @ [[]]) [10..<30] per_frame_commands"

text \<open>
  The outer loop, \<open>n\<close> iterations left, \<open>i\<close> the number of the iteration:
  \<^verbatim>\<open>small_ids.pop(0)\<close> raises \<^verbatim>\<open>IndexError\<close> on an empty list, the lookup of the object's
  physics info raises \<^verbatim>\<open>KeyError\<close> for an unknown id.
\<close>

fun launch_loop ::
  "(int \<rightharpoonup> 'r PhysicsInfo) \<Rightarrow> (nat \<Rightarrow> real \<times> real \<times> real \<times> real) \<Rightarrow> nat \<Rightarrow> nat \<Rightarrow>
   int list \<Rightarrow> 'c command list list \<Rightarrow> py_error + 'c command list list" where
  "launch_loop info draws i 0 small_ids per_frame_commands = Inr per_frame_commands"
| "launch_loop info draws i (Suc n) small_ids per_frame_commands =
     (case small_ids of
        [] \<Rightarrow> Inl IndexError
      | o_id # rest \<Rightarrow>
          (case dict_get info o_id of
             Inl e \<Rightarrow> Inl e
           | Inr p \<Rightarrow>
               launch_loop info draws (Suc i) n rest
                 (wait_some_frames
                    (per_frame_commands @
                       [[Apply_force_to_object (force (draws i) (mass p)) o_id]]))))"

text \<open>The counts of objects to launch, as the code computes them on Python's ints.\<close>

definition max_num_objects :: "int list \<Rightarrow> int" where
  "max_num_objects small_ids =
     (if int (length small_ids) < 8 then int (length small_ids) else 8)"

definition min_num_objects :: "int list \<Rightarrow> int" where
  "min_num_objects small_ids =
     (let mn = max_num_objects small_ids - 3 in if mn \<le> 0 then 1 else mn)"

definition get_falling_commands ::
  "random_draws \<Rightarrow> ('r, 'b) RigidbodiesDataset \<Rightarrow> real \<Rightarrow> py_error + 'c command list list" where
  "get_falling_commands rnd s m =
     (case get_objects_by_mass s m of
        Inl e \<Rightarrow> Inl e
      | Inr ids \<Rightarrow>
          (let small_ids = shuffle (shuffle_draws rnd) ids
           in case randint (randint_draw rnd) (min_num_objects small_ids)
                     (max_num_objects small_ids) of
                Inl e \<Rightarrow> Inl e
              | Inr n \<Rightarrow>
                  launch_loop (map_of (physics_info s)) (uniform_draws rnd) 0 (nat n)
                    small_ids []))"

text \<open>
  What one iteration of the outer loop appends, for the \<open>i\<close>-th launched object
  \<open>o_id\<close>: the frame with the one command that applies the force, then twenty empty
  frames. It is used to state what \<^verbatim>\<open>get_falling_commands\<close> returns.
\<close>

definition launch_block ::
  "(int \<rightharpoonup> 'r PhysicsInfo) \<Rightarrow> (nat \<Rightarrow> real \<times> real \<times> real \<times> real) \<Rightarrow> nat \<times> int \<Rightarrow>
   'c command list list" where
  "launch_block info draws p =
     (case p of (i, o_id) \<Rightarrow>
        (case info o_id of
           None \<Rightarrow> []
         | Some q \<Rightarrow> [Apply_force_to_object (force (draws i) (mass q)) o_id] # replicate 20 []))"

text \<open>\<^verbatim>\<open>_get_send_data_commands\<close>: the commands of the base class, then two more.\<close>

definition get_send_data_commands :: "'c list \<Rightarrow> 'c command list" where
  "get_send_data_commands super_commands =
     map Base_command super_commands @
       [Send_collisions True False False [''obj'', ''env''], Send_rigidbodies ''always'']"

section \<open>Random object selection\<close>

text \<open>\<^verbatim>\<open>random_color\<close>: three values of \<^verbatim>\<open>random()\<close>.\<close>

definition random_color :: "real \<times> real \<times> real \<Rightarrow> real list" where
  "random_color raw = (case raw of (r, g, b) \<Rightarrow> [r, g, b])"

text \<open>
  \<^verbatim>\<open>random_primitive\<close>. \<^verbatim>\<open>random.choice\<close> raises \<^verbatim>\<open>IndexError\<close> on an empty list
  and takes the element at \<^verbatim>\<open>_randbelow(len(seq))\<close> otherwise; \<^verbatim>\<open>scale[0]\<close> and
  \<^verbatim>\<open>scale[1]\<close> raise \<^verbatim>\<open>IndexError\<close> on a list that is too short; \<^verbatim>\<open>color or ...\<close>
  takes the random colour when the colour is \<^verbatim>\<open>None\<close> or empty; the reshape to
  \<open>(1, 3)\<close> raises \<^verbatim>\<open>ValueError\<close> unless the colour has three components, after the scale
  was appended. \<open>scales\<close> and \<open>colors\<close> are arrays of the base class: \<open>append_scale\<close> and
  \<open>append_color\<close> write them in the base state. The result is the record chosen and the
  id, scale and colour of the object.
\<close>

definition random_primitive ::
  "('b \<Rightarrow> real \<Rightarrow> 'b) \<Rightarrow> ('b \<Rightarrow> real list \<Rightarrow> 'b) \<Rightarrow> nat \<Rightarrow> int \<Rightarrow> real \<Rightarrow>
   real \<times> real \<times> real \<Rightarrow> ('r, 'b) RigidbodiesDataset \<Rightarrow> 'r list \<Rightarrow> real list \<Rightarrow>
   real list option \<Rightarrow>
   (py_error + 'r \<times> int \<times> real \<times> real list) \<times> ('r, 'b) RigidbodiesDataset" where
  "random_primitive append_scale append_color choice_raw unique_id scale_raw color_raw
       s object_types scale color =
     (if object_types = [] then (Inl IndexError, s)
      else
        (let obj_record = object_types ! (choice_raw mod length object_types)
         in case scale of
              lo # hi # _ \<Rightarrow>
                (let sc = uniform scale_raw lo hi;
                     col = (case color of None \<Rightarrow> random_color color_raw
                            | Some c \<Rightarrow> if c = [] then random_color color_raw else c);
                     s1 = s\<lparr>base := append_scale (base s) sc\<rparr>
                 in if length col = 3
                    then (Inr (obj_record, unique_id, sc, col),
                          s1\<lparr>base := append_color (base s1) col\<rparr>)
                    else (Inl ValueError, s1))
            | _ \<Rightarrow> (Inl IndexError, s)))"

section \<open>Frame data extraction\<close>

text \<open>
  The output messages of the engine, decoded: the constructor is the type id that
  \<^verbatim>\<open>OutputData.get_data_type_id\<close> reads (\<^verbatim>\<open>rigi\<close>, \<^verbatim>\<open>coll\<close>, \<^verbatim>\<open>enco\<close>, or another id,
  kept as a string), the arguments are what the getters of the decoded message return.
  A rigid-body message lists, for each object, its id, velocity, angular velocity and
  sleeping flag. A collision has the collider's and the collidee's id, the relative
  velocity and the contacts, each a normal and a point; an environment collision has the
  object's id and the contacts.
\<close>

datatype output_data =
    Rigi "(int \<times> vector3 \<times> vector3 \<times> bool) list"
  | Coll int int vector3 "(vector3 \<times> vector3) list"
  | Enco int "(vector3 \<times> vector3) list"
  | Other_data string

text \<open>
  A numpy array: its shape and its elements in row-major order. \<^verbatim>\<open>np.append\<close> without
  an axis flattens the array and the values and gives a one-dimensional array.
  \<^verbatim>\<open>reshape((-1,) + inner)\<close> infers the first dimension, and raises \<^verbatim>\<open>ValueError\<close> when
  the size is not a multiple of the product of the other dimensions.
\<close>

record 'a ndarray =
  shape :: "nat list"
  elems :: "'a list"

definition np_empty :: "nat list \<Rightarrow> 'a ndarray" where
  "np_empty sh = \<lparr>shape = sh, elems = []\<rparr>"

definition np_append :: "'a ndarray \<Rightarrow> 'a list \<Rightarrow> 'a ndarray" where
  "np_append arr vals =
     \<lparr>shape = [length (elems arr) + length vals], elems = elems arr @ vals\<rparr>"

definition reshape_infer :: "nat list \<Rightarrow> 'a ndarray \<Rightarrow> py_error + 'a ndarray" where
  "reshape_infer inner arr =
     (let k = prod_list inner; n = length (elems arr)
      in if k = 0 \<or> n mod k \<noteq> 0 then Inl ValueError
         else Inr \<lparr>shape = (n div k) # inner, elems = elems arr\<rparr>)"

definition components :: "vector3 \<Rightarrow> real list" where
  "components v = (case v of (x, y, z) \<Rightarrow> [x, y, z])"

text \<open>
  The arrays of one frame while the messages are read. A row of \<open>velocities\<close> is
  \<open>None\<close> as long as nothing was written to it (\<^verbatim>\<open>np.empty\<close> leaves it uninitialised).
\<close>

record frame_arrays =
  velocities :: "vector3 option list"
  angular_velocities :: "vector3 option list"
  collision_ids :: "int ndarray"
  collision_relative_velocities :: "real ndarray"
  collision_contacts :: "real ndarray"
  env_collision_ids :: "int ndarray"
  env_collision_contacts :: "real ndarray"
  sleeping :: bool

text \<open>
  The first loop over a rigid-body message: \<open>ri_dict\<close> takes the entry, and an object
  that is not sleeping and whose position in \<open>tr\<close> has \<open>y \<ge> -1\<close> clears the flag. The
  position is looked up only for an object that is not sleeping (\<^verbatim>\<open>and\<close> evaluates its
  right side only then); the lookup raises \<^verbatim>\<open>KeyError\<close> for an id that \<open>tr\<close> lacks.
\<close>

fun rigi_scan ::
  "(int \<rightharpoonup> vector3) \<Rightarrow> (int \<times> vector3 \<times> vector3 \<times> bool) list \<Rightarrow>
   (int \<rightharpoonup> vector3 \<times> vector3) \<Rightarrow> bool \<Rightarrow> py_error + (int \<rightharpoonup> vector3 \<times> vector3) \<times> bool" where
  "rigi_scan tr [] ri_dict sl = Inr (ri_dict, sl)"
| "rigi_scan tr ((i, vel, ang, asleep) # es) ri_dict sl =
     (let ri_dict' = ri_dict(i \<mapsto> (vel, ang))
      in if asleep then rigi_scan tr es ri_dict' sl
         else (case dict_get tr i of
                 Inl e \<Rightarrow> Inl e
               | Inr pos \<Rightarrow>
                   if fst (snd pos) \<ge> - 1 then rigi_scan tr es ri_dict' False
                   else rigi_scan tr es ri_dict' sl))"

text \<open>
  The second loop, over \<^verbatim>\<open>zip(self.object_ids, range(num_objects))\<close>: the row of each
  object is written from \<open>ri_dict\<close>, \<^verbatim>\<open>KeyError\<close> for an object the message lacks.
\<close>

fun rigi_assign ::
  "(int \<rightharpoonup> vector3 \<times> vector3) \<Rightarrow> (int \<times> nat) list \<Rightarrow> vector3 option list \<Rightarrow>
   vector3 option list \<Rightarrow> py_error + vector3 option list \<times> vector3 option list" where
  "rigi_assign ri_dict [] vels angs = Inr (vels, angs)"
| "rigi_assign ri_dict ((o_id, i) # rest) vels angs =
     (case dict_get ri_dict o_id of
        Inl e \<Rightarrow> Inl e
      | Inr (vel, ang) \<Rightarrow> rigi_assign ri_dict rest (vels[i := Some vel]) (angs[i := Some ang]))"

text \<open>The loops over the contacts of a collision: a normal and a point are six floats.\<close>

definition append_contacts :: "real ndarray \<Rightarrow> (vector3 \<times> vector3) list \<Rightarrow> real ndarray" where
  "append_contacts arr contacts =
     fold (\<lambda>(normal, point) a. np_append a (components normal @ components point)) contacts arr"

text \<open>The body of the loop over the messages.\<close>

fun read_message ::
  "int list \<Rightarrow> (int \<rightharpoonup> vector3) \<Rightarrow> output_data \<Rightarrow> frame_arrays \<Rightarrow> py_error + frame_arrays" where
  "read_message object_ids tr (Rigi entries) a =
     (case rigi_scan tr entries Map.empty (sleeping a) of
        Inl e \<Rightarrow> Inl e
      | Inr (ri_dict, sl) \<Rightarrow>
          (case rigi_assign ri_dict (zip object_ids [0..<length object_ids])
                  (velocities a) (angular_velocities a) of
             Inl e \<Rightarrow> Inl e
           | Inr (vels, angs) \<Rightarrow>
               Inr (a\<lparr>velocities := vels, angular_velocities := angs, sleeping := sl\<rparr>)))"
| "read_message object_ids tr (Coll collider collidee relative_velocity contacts) a =
     Inr (a\<lparr>collision_ids := np_append (collision_ids a) [collider, collidee],
            collision_relative_velocities :=
              np_append (collision_relative_velocities a) (components relative_velocity),
            collision_contacts := append_contacts (collision_contacts a) contacts\<rparr>)"
| "read_message object_ids tr (Enco object_id contacts) a =
     Inr (a\<lparr>env_collision_ids := np_append (env_collision_ids a) [object_id],
            env_collision_contacts := append_contacts (env_collision_contacts a) contacts\<rparr>)"
| "read_message object_ids tr (Other_data r_id) a = Inr a"

fun read_messages ::
  "int list \<Rightarrow> (int \<rightharpoonup> vector3) \<Rightarrow> output_data list \<Rightarrow> frame_arrays \<Rightarrow> py_error + frame_arrays" where
  "read_messages object_ids tr [] a = Inr a"
| "read_messages object_ids tr (r # rs) a =
     (case read_message object_ids tr r a of
        Inl e \<Rightarrow> Inl e
      | Inr a' \<Rightarrow> read_messages object_ids tr rs a')"

definition initial_arrays :: "nat \<Rightarrow> frame_arrays" where
  "initial_arrays num_objects =
     \<lparr>velocities = replicate num_objects None,
      angular_velocities = replicate num_objects None,
      collision_ids = np_empty [0, 2],
      collision_relative_velocities = np_empty [0, 3],
      collision_contacts = np_empty [0, 2, 3],
      env_collision_ids = np_empty [0, 1],
      env_collision_contacts = np_empty [0, 2, 3],
      sleeping = True\<rparr>"

text \<open>
  The datasets written for the frame and the flag returned. The velocities are written
  in the shape they have; the environment-collision ids are written without a reshape.
\<close>

record frame_datasets =
  ds_velocities :: "vector3 option list"
  ds_angular_velocities :: "vector3 option list"
  ds_collisions_object_ids :: "int ndarray"
  ds_collisions_relative_velocities :: "real ndarray"
  ds_collisions_contacts :: "real ndarray"
  ds_env_collisions_object_ids :: "int ndarray"
  ds_env_collisions_contacts :: "real ndarray"

text \<open>
  \<^verbatim>\<open>_write_frame\<close>. \<open>object_ids\<close> is the field \<^verbatim>\<open>self.object_ids\<close> of the base class and
  \<open>tr\<close> the dict that the base class's \<^verbatim>\<open>_write_frame\<close> returns, from object ids to the
  position of its \<^verbatim>\<open>pos\<close> entry. The messages read are \<^verbatim>\<open>resp[:-1]\<close>. The result is the
  written datasets and the flag \<open>sleeping\<close>.
\<close>

definition write_frame ::
  "int list \<Rightarrow> (int \<rightharpoonup> vector3) \<Rightarrow> output_data list \<Rightarrow> py_error + frame_datasets \<times> bool" where
  "write_frame object_ids tr resp =
     (case read_messages object_ids tr (butlast resp) (initial_arrays (length object_ids)) of
        Inl e \<Rightarrow> Inl e
      | Inr a \<Rightarrow>
          (case reshape_infer [2] (collision_ids a) of
             Inl e \<Rightarrow> Inl e
           | Inr ids \<Rightarrow>
          (case reshape_infer [3] (collision_relative_velocities a) of
             Inl e \<Rightarrow> Inl e
           | Inr rel \<Rightarrow>
          (case reshape_infer [2, 3] (collision_contacts a) of
             Inl e \<Rightarrow> Inl e
           | Inr con \<Rightarrow>
          (case reshape_infer [2, 3] (env_collision_contacts a) of
             Inl e \<Rightarrow> Inl e
           | Inr econ \<Rightarrow>
               Inr (\<lparr>ds_velocities = velocities a,
                     ds_angular_velocities = angular_velocities a,
                     ds_collisions_object_ids = ids,
                     ds_collisions_relative_velocities = rel,
                     ds_collisions_contacts = con,
                     ds_env_collisions_object_ids = env_collision_ids a,
                     ds_env_collisions_contacts = econ\<rparr>, sleeping a))))))"

section \<open>Static data and the calls of an episode\<close>

text \<open>
  \<^verbatim>\<open>_write_static_data\<close> writes the four arrays as the datasets \<^verbatim>\<open>mass\<close>,
  \<^verbatim>\<open>static_friction\<close>, \<^verbatim>\<open>dynamic_friction\<close> and \<^verbatim>\<open>bounciness\<close>, after the base class
  wrote its own; it reads the state only.
\<close>

definition write_static_data ::
  "('r, 'b) RigidbodiesDataset \<Rightarrow> real list \<times> real list \<times> real list \<times> real list" where
  "write_static_data s = (masses s, static_frictions s, dynamic_frictions s, bouncinesses s)"

text \<open>
  What the recorder takes from outside this file: the methods of the base class that
  change the base state, and the registry.
\<close>

record ('r, 'b, 'p, 'c) environment =
  env_clear_static_data :: "'b \<Rightarrow> 'b"
  env_add_transforms_object :: "'b \<Rightarrow> int \<Rightarrow> 'r \<Rightarrow> 'p \<Rightarrow> 'p \<Rightarrow> 'c \<times> 'b"
  env_append_scale :: "'b \<Rightarrow> real \<Rightarrow> 'b"
  env_append_color :: "'b \<Rightarrow> real list \<Rightarrow> 'b"
  env_PHYSICS_INFO :: "string \<rightharpoonup> 'r PhysicsInfo"

text \<open>
  A call of one of the methods of the class, with its arguments and with the values the
  random generator and \<^verbatim>\<open>get_unique_id\<close> produce during the call. \<open>call\<close> is the state
  after the call; the methods that only read the state leave it as it is.
\<close>

datatype ('r, 'p) method_call =
    Clear_static_data
  | Add_physics_object int 'r 'p 'p real real real real "int option"
  | Add_physics_object_default int string 'p 'p "int option"
  | Random_primitive nat int real "real \<times> real \<times> real" "'r list" "real list" "real list option"
  | Get_objects_by_mass real
  | Get_falling_commands random_draws real
  | Get_send_data_commands
  | Write_static_data
  | Write_frame "int list" "int \<rightharpoonup> vector3" "output_data list"

fun call ::
  "('r, 'b, 'p, 'c) environment \<Rightarrow> ('r, 'p) method_call \<Rightarrow> ('r, 'b) RigidbodiesDataset \<Rightarrow>
   ('r, 'b) RigidbodiesDataset" where
  "call env Clear_static_data s = clear_static_data (env_clear_static_data env) s"
| "call env (Add_physics_object unique_id rec position rotation m d_friction s_friction bounce o_id) s =
     snd (add_physics_object (env_add_transforms_object env) unique_id s rec position rotation
            m d_friction s_friction bounce o_id)"
| "call env (Add_physics_object_default unique_id name position rotation o_id) s =
     snd (add_physics_object_default (env_PHYSICS_INFO env) (env_add_transforms_object env)
            unique_id s name position rotation o_id)"
| "call env (Random_primitive choice_raw unique_id scale_raw color_raw object_types scale color) s =
     snd (random_primitive (env_append_scale env) (env_append_color env) choice_raw unique_id
            scale_raw color_raw s object_types scale color)"
| "call env (Get_objects_by_mass m) s = s"
| "call env (Get_falling_commands rnd m) s = s"
| "call env Get_send_data_commands s = s"
| "call env Write_static_data s = s"
| "call env (Write_frame object_ids tr resp) s = s"

text \<open>
  The objects added since the last clear, in the order of their creation, each with its
  mass, dynamic friction, static friction and bounciness: read off the calls, not off
  the state. A call of \<^verbatim>\<open>add_physics_object_default\<close> adds an object when the name is
  registered.
\<close>

fun added_by ::
  "('r, 'b, 'p, 'c) environment \<Rightarrow> ('r, 'p) method_call \<Rightarrow> (real \<times> real \<times> real \<times> real) list \<Rightarrow>
   (real \<times> real \<times> real \<times> real) list" where
  "added_by env Clear_static_data acc = []"
| "added_by env (Add_physics_object unique_id rec position rotation m d_friction s_friction bounce o_id) acc =
     acc @ [(m, d_friction, s_friction, bounce)]"
| "added_by env (Add_physics_object_default unique_id name position rotation o_id) acc =
     (case env_PHYSICS_INFO env name of
        None \<Rightarrow> acc
      | Some info \<Rightarrow>
          acc @ [(mass info, dynamic_friction info, static_friction info, bounciness info)])"
| "added_by env c acc = acc"

definition objects_added ::
  "('r, 'b, 'p, 'c) environment \<Rightarrow> ('r, 'p) method_call list \<Rightarrow> (real \<times> real \<times> real \<times> real) list" where
  "objects_added env calls = fold (added_by env) calls []"

text \<open>
  The four arrays hold, position by position, the scalars of the objects \<open>objs\<close>.
\<close>

definition parallel_with ::
  "('r, 'b) RigidbodiesDataset \<Rightarrow> (real \<times> real \<times> real \<times> real) list \<Rightarrow> bool" where
  "parallel_with s objs \<longleftrightarrow>
     masses s = map fst objs \<and>
     dynamic_frictions s = map (fst \<circ> snd) objs \<and>
     static_frictions s = map (fst \<circ> snd \<circ> snd) objs \<and>
     bouncinesses s = map (snd \<circ> snd \<circ> snd) objs"


section \<open>Reading a frame: what the messages report\<close>

text \<open>
  The entries of the rigid-body messages of a response, in order. An entry is awake
  above the abyss when its sleeping flag is off and the position of its object in \<open>tr\<close>
  has \<open>y \<ge> -1\<close>.
\<close>

fun entries_of :: "output_data \<Rightarrow> (int \<times> vector3 \<times> vector3 \<times> bool) list" where
  "entries_of (Rigi entries) = entries"
| "entries_of r = []"

definition rigi_entries :: "output_data list \<Rightarrow> (int \<times> vector3 \<times> vector3 \<times> bool) list" where
  "rigi_entries rs = concat (map entries_of rs)"

definition awake_above_abyss :: "(int \<rightharpoonup> vector3) \<Rightarrow> int \<times> vector3 \<times> vector3 \<times> bool \<Rightarrow> bool" where
  "awake_above_abyss tr e =
     (case e of (i, vel, ang, asleep) \<Rightarrow>
        \<not> asleep \<and> (case tr i of None \<Rightarrow> False | Some pos \<Rightarrow> - 1 \<le> fst (snd pos)))"

text \<open>
  The condition in the words of the specification: every tracked object (an id of
  \<open>object_ids\<close>) whose position in \<open>tr\<close> has \<open>y \<ge> -1\<close> has an entry with the sleeping
  flag on in a rigid-body message of the response.
\<close>

definition reported_asleep :: "output_data list \<Rightarrow> int \<Rightarrow> bool" where
  "reported_asleep rs k = (\<exists>e\<in>set (rigi_entries rs). fst e = k \<and> snd (snd (snd e)))"

definition above_abyss :: "(int \<rightharpoonup> vector3) \<Rightarrow> int \<Rightarrow> bool" where
  "above_abyss tr k = (case tr k of None \<Rightarrow> False | Some pos \<Rightarrow> - 1 \<le> fst (snd pos))"

definition all_tracked_asleep :: "int list \<Rightarrow> (int \<rightharpoonup> vector3) \<Rightarrow> output_data list \<Rightarrow> bool" where
  "all_tracked_asleep object_ids tr rs =
     list_all (\<lambda>k. \<not> above_abyss tr k \<or> reported_asleep rs k) object_ids"

text \<open>
  The numbers of contacts of the collisions of a response, one number for each
  collision message, and the same for the environment collisions.
\<close>

fun contacts_of_collision :: "output_data \<Rightarrow> nat list" where
  "contacts_of_collision (Coll collider collidee relative_velocity contacts) = [length contacts]"
| "contacts_of_collision r = []"

fun contacts_of_env_collision :: "output_data \<Rightarrow> nat list" where
  "contacts_of_env_collision (Enco object_id contacts) = [length contacts]"
| "contacts_of_env_collision r = []"

definition collision_contact_counts :: "output_data list \<Rightarrow> nat list" where
  "collision_contact_counts rs = concat (map contacts_of_collision rs)"

definition env_collision_contact_counts :: "output_data list \<Rightarrow> nat list" where
  "env_collision_contact_counts rs = concat (map contacts_of_env_collision rs)"

text \<open>
  The numbers of elements of the five collision arrays of a frame, and these numbers
  after collisions with the contact counts \<open>cs\<close> and environment collisions with the
  contact counts \<open>es\<close> were appended.
\<close>

record frame_sizes =
  n_ids :: nat
  n_rel :: nat
  n_con :: nat
  n_env :: nat
  n_econ :: nat

definition sizes :: "frame_arrays \<Rightarrow> frame_sizes" where
  "sizes a =
     \<lparr>n_ids = length (elems (collision_ids a)),
      n_rel = length (elems (collision_relative_velocities a)),
      n_con = length (elems (collision_contacts a)),
      n_env = length (elems (env_collision_ids a)),
      n_econ = length (elems (env_collision_contacts a))\<rparr>"

definition grown :: "frame_sizes \<Rightarrow> nat list \<Rightarrow> nat list \<Rightarrow> frame_sizes" where
  "grown z cs es =
     \<lparr>n_ids = n_ids z + 2 * length cs,
      n_rel = n_rel z + 3 * length cs,
      n_con = n_con z + 6 * sum_list cs,
      n_env = n_env z + length es,
      n_econ = n_econ z + 6 * sum_list es\<rparr>"


section \<open>Example data\<close>

text \<open>
  A dataset with two objects, a cube of mass 1 with id 1 and the chair of the registry
  example (mass 5) with id 2, and the values of a random generator.
\<close>

definition example_dataset :: "(string, unit) RigidbodiesDataset" where
  "example_dataset =
     \<lparr>base = (), masses = [1, 5], static_frictions = [0.2, 0.4],
      dynamic_frictions = [0.1, 0.3], bouncinesses = [0.5, 0.2],
      physics_info =
        [(1, \<lparr>model_record = ''cube'', mass = 1, dynamic_friction = 0.1,
               static_friction = 0.2, bounciness = 0.5\<rparr>),
         (2, \<lparr>model_record = ''chair_01'', mass = 5, dynamic_friction = 0.3,
               static_friction = 0.4, bounciness = 0.2\<rparr>)]\<rparr>"

definition example_draws :: random_draws where
  "example_draws =
     \<lparr>shuffle_draws = (\<lambda>i. 0), randint_draw = 0,
      uniform_draws = (\<lambda>i. (1 / 2, 0, 1 / 2, 0))\<rparr>"

definition example_registry :: "string \<rightharpoonup> string PhysicsInfo" where
  "example_registry =
     [''chair'' \<mapsto> \<lparr>model_record = ''chair_01'', mass = 5, dynamic_friction = 0.3,
                     static_friction = 0.4, bounciness = 0.2\<rparr>]"

text \<open>
  A stand-in for the base class's \<^verbatim>\<open>add_transforms_object\<close>: the base state is the list
  of object ids, the command is the id and the name of the record.
\<close>

definition example_add_transforms_object ::
  "int list \<Rightarrow> int \<Rightarrow> string \<Rightarrow> vector3 \<Rightarrow> vector3 \<Rightarrow> (int \<times> string) \<times> int list" where
  "example_add_transforms_object b o_id rec position rotation = ((o_id, rec), b @ [o_id])"


definition example_environment ::
  "(string, int list, vector3, int \<times> string) environment" where
  "example_environment =
     \<lparr>env_clear_static_data = (\<lambda>b. []),
      env_add_transforms_object = example_add_transforms_object,
      env_append_scale = (\<lambda>b sc. b),
      env_append_color = (\<lambda>b col. b),
      env_PHYSICS_INFO = example_registry\<rparr>"

text \<open>
  Responses of the engine for one frame; the last message of a response is the one
  \<^verbatim>\<open>resp[:-1]\<close> leaves out. The first has no rigid-body message. The second reports the
  object 1 asleep and an object 2, which is not in \<open>object_ids\<close>, awake. The third has the
  object 1 only, asleep. The fourth has one collision with two contacts and one
  environment collision with one contact, the fifth one contact for each.
\<close>

definition example_response_no_rigi :: "output_data list" where
  "example_response_no_rigi = [Other_data ''tran'', Other_data ''fram'']"

definition example_response_untracked :: "output_data list" where
  "example_response_untracked =
     [Rigi [(1, (0, 0, 0), (0, 0, 0), True), (2, (1, 0, 0), (0, 0, 0), False)],
      Other_data ''fram'']"

definition example_response_asleep :: "output_data list" where
  "example_response_asleep =
     [Rigi [(1, (0, 0, 0), (0, 0, 0), True)], Other_data ''fram'']"



definition example_tr :: "int \<rightharpoonup> vector3" where
  "example_tr = [1 \<mapsto> (0, 0, 0), 2 \<mapsto> (0, 0, 0)]"

text \<open>The calls of two episodes.\<close>

definition example_calls :: "(string, vector3) method_call list" where
  "example_calls =
     [Add_physics_object 0 ''cube'' (0, 0, 0) (0, 0, 0) 1 0.1 0.2 0.5 (Some 1),
      Add_physics_object_default 7 ''chair'' (1, 0, 0) (0, 0, 0) None,
      Random_primitive 0 5 0.5 (0.1, 0.2, 0.3) [''sphere''] [0.2, 0.3] None,
      Get_objects_by_mass 3,
      Write_static_data,
      Clear_static_data,
      Add_physics_object_default 8 ''table'' (1, 0, 0) (0, 0, 0) None,
      Add_physics_object 0 ''cube'' (0, 0, 0) (0, 0, 0) 2 0.1 0.2 0.5 (Some 4)]"

section \<open>Auxiliary facts\<close>

lemma objects_below_map_of:
  "set ks \<subseteq> fst ` set d \<Longrightarrow>
   objects_below (map_of d) m ks =
     Inr (filter (\<lambda>k. case map_of d k of None \<Rightarrow> False | Some p \<Rightarrow> mass p < m) ks)"
proof (induction ks)
  case Nil
  then show ?case by simp
next
  case (Cons k ks)
  then have "k \<in> fst ` set d" by simp
  then obtain p where "map_of d k = Some p"
    by (metis domD dom_map_of_conv_image_fst)
  with Cons show ?case by (simp add: dict_get_def)
qed

lemma get_objects_by_mass_filter:
  "get_objects_by_mass s m =
     Inr (filter (\<lambda>k. case map_of (physics_info s) k of None \<Rightarrow> False | Some p \<Rightarrow> mass p < m)
            (map fst (physics_info s)))"
  unfolding get_objects_by_mass_def by (rule objects_below_map_of) simp


lemma shuffle_from_mset: "i < length x \<Longrightarrow> mset (shuffle_from raw i x) = mset x"
proof (induction i arbitrary: x)
  case 0
  then show ?case by simp
next
  case (Suc i)
  let ?j = "raw (Suc i) mod (Suc i + 1)"
  have "?j < Suc i + 1" by (rule mod_less_divisor) simp
  then have j: "?j < length x" using Suc.prems by linarith
  have "mset (x[Suc i := x ! ?j, ?j := x ! Suc i]) = mset x"
    using mset_swap[OF j Suc.prems] by simp
  moreover have "i < length (x[Suc i := x ! ?j, ?j := x ! Suc i])"
    using Suc.prems by simp
  ultimately show ?case using Suc.IH by (simp add: Let_def)
qed

lemma shuffle_mset: "mset (shuffle raw x) = mset x"
proof (cases x)
  case Nil
  then show ?thesis by (simp add: shuffle_def)
next
  case (Cons a as)
  then show ?thesis by (simp add: shuffle_def shuffle_from_mset)
qed

lemma shuffle_set: "set (shuffle raw x) = set x"
  using shuffle_mset by (metis set_mset_mset)

lemma shuffle_length: "length (shuffle raw x) = length x"
  using shuffle_mset by (metis size_mset)

lemma wait_fold: "fold (\<lambda>j acc. acc @ [[]]) js acc = acc @ replicate (length js) []"
proof (induction js arbitrary: acc)
  case Nil
  then show ?case by simp
next
  case (Cons j js)
  then show ?case by (simp add: replicate_append_same)
qed

lemma wait_some_frames_eq: "wait_some_frames acc = acc @ replicate 20 []"
proof -
  have "length [10..<30::nat] = 20" by (simp only: length_upt)
  then show ?thesis unfolding wait_some_frames_def wait_fold by (simp only:)
qed

lemma launch_loop_blocks:
  "n \<le> length ids \<Longrightarrow> set ids \<subseteq> dom info \<Longrightarrow>
   launch_loop info draws i n ids acc =
     Inr (acc @ concat (map (launch_block info draws) (zip [i..<i + n] (take n ids))))"
proof (induction n arbitrary: i ids acc)
  case 0
  then show ?case by simp
next
  case (Suc n)
  then obtain o_id rest where ids: "ids = o_id # rest" by (cases ids) auto
  with Suc.prems obtain q where q: "info o_id = Some q" by auto
  have rest: "n \<le> length rest" "set rest \<subseteq> dom info" using Suc.prems ids by auto
  have up: "[i..<i + Suc n] = i # [Suc i..<Suc i + n]"
    by (simp add: upt_rec)
  have blk: "launch_block info draws (i, o_id) =
      [Apply_force_to_object (force (draws i) (mass q)) o_id] # replicate 20 []"
    using q by (simp add: launch_block_def)
  have "launch_loop info draws i (Suc n) ids acc =
      launch_loop info draws (Suc i) n rest
        ((acc @ [[Apply_force_to_object (force (draws i) (mass q)) o_id]]) @ replicate 20 [])"
    using ids q by (simp add: dict_get_def wait_some_frames_eq del: replicate.simps)
  also have "\<dots> = Inr (((acc @ [[Apply_force_to_object (force (draws i) (mass q)) o_id]]) @ replicate 20 []) @
      concat (map (launch_block info draws) (zip [Suc i..<Suc i + n] (take n rest))))"
    by (rule Suc.IH[OF rest])
  also have "\<dots> = Inr (acc @ concat (map (launch_block info draws) (zip [i..<i + Suc n] (take (Suc n) ids))))"
    unfolding up ids by (simp add: blk del: replicate.simps)
  finally show ?case .
qed


lemma randint_range:
  "a \<le> b \<Longrightarrow> \<exists>n. randint raw a b = Inr n \<and> a \<le> n \<and> n \<le> b"
proof -
  assume ab: "a \<le> b"
  then have w: "0 < b + 1 - a" by simp
  have "raw mod nat (b + 1 - a) < nat (b + 1 - a)"
    by (rule mod_less_divisor) (use w in simp)
  then have "int (raw mod nat (b + 1 - a)) < b + 1 - a" using w by linarith
  then show ?thesis using w by (simp add: randint_def Let_def)
qed

lemma randint_empty: "b < a \<Longrightarrow> randint raw a b = Inl ValueError"
  by (simp add: randint_def Let_def)

lemma num_objects_bounds:
  "ids \<noteq> [] \<Longrightarrow> 1 \<le> min_num_objects ids \<and> min_num_objects ids \<le> max_num_objects ids \<and>
     max_num_objects ids \<le> 8 \<and> max_num_objects ids \<le> int (length ids)"
  by (cases ids) (auto simp add: min_num_objects_def max_num_objects_def Let_def)

lemma get_falling_commands_blocks:
  assumes "get_objects_by_mass s thr = Inr ids" and "ids \<noteq> []"
  shows "\<exists>n. min_num_objects ids \<le> int n \<and> int n \<le> max_num_objects ids \<and>
           get_falling_commands rnd s thr =
             Inr (concat (map (launch_block (map_of (physics_info s)) (uniform_draws rnd))
                    (zip [0..<n] (take n (shuffle (shuffle_draws rnd) ids)))))"
proof -
  let ?sh = "shuffle (shuffle_draws rnd) ids"
  have len: "length ?sh = length ids" by (rule shuffle_length)
  have mx: "max_num_objects ?sh = max_num_objects ids" "min_num_objects ?sh = min_num_objects ids"
    by (simp_all add: max_num_objects_def min_num_objects_def len)
  have b: "1 \<le> min_num_objects ids" "min_num_objects ids \<le> max_num_objects ids"
      "max_num_objects ids \<le> int (length ids)"
    using num_objects_bounds[OF assms(2)] by simp_all
  obtain k where k: "randint (randint_draw rnd) (min_num_objects ids) (max_num_objects ids) = Inr k"
      "min_num_objects ids \<le> k" "k \<le> max_num_objects ids"
    using randint_range[OF b(2)] by blast
  have ids: "ids = filter (\<lambda>k. case map_of (physics_info s) k of None \<Rightarrow> False | Some p \<Rightarrow> mass p < thr)
            (map fst (physics_info s))"
    using assms(1) by (simp add: get_objects_by_mass_filter)
  have "set ids \<subseteq> dom (map_of (physics_info s))"
    by (subst ids) (auto split: option.splits)
  then have dom: "set ?sh \<subseteq> dom (map_of (physics_info s))" by (simp add: shuffle_set)
  have nk: "nat k \<le> length ?sh" using k b len by linarith
  have "get_falling_commands rnd s thr =
      launch_loop (map_of (physics_info s)) (uniform_draws rnd) 0 (nat k) ?sh []"
    using assms(1) k(1) by (simp add: get_falling_commands_def mx Let_def)
  also have "\<dots> = Inr ([] @ concat (map (launch_block (map_of (physics_info s)) (uniform_draws rnd))
                    (zip [0..<0 + nat k] (take (nat k) ?sh))))"
    by (rule launch_loop_blocks[OF nk dom])
  finally have "get_falling_commands rnd s thr =
     Inr (concat (map (launch_block (map_of (physics_info s)) (uniform_draws rnd))
                    (zip [0..<nat k] (take (nat k) ?sh))))" by simp
  moreover have "min_num_objects ids \<le> int (nat k)" "int (nat k) \<le> max_num_objects ids"
    using k b by simp_all
  ultimately show ?thesis by blast
qed


lemma blocks_force:
  "frame \<in> set (concat (map (launch_block info draws) zs)) \<Longrightarrow>
   Apply_force_to_object f o_id \<in> set frame \<Longrightarrow>
   \<exists>i q. (i, o_id) \<in> set zs \<and> info o_id = Some q \<and> f = force (draws i) (mass q)"
proof (induction zs)
  case Nil
  then show ?case by simp
next
  case (Cons z zs)
  show ?case
  proof (cases "frame \<in> set (launch_block info draws z)")
    case True
    obtain i k where z: "z = (i, k)" by (cases z)
    show ?thesis
    proof (cases "info k")
      case None
      with True z show ?thesis by (simp add: launch_block_def)
    next
      case (Some q)
      with True Cons.prems(2) z have "k = o_id \<and> f = force (draws i) (mass q)"
        by (auto simp add: launch_block_def)
      with Some z show ?thesis by auto
    qed
  next
    case False
    with Cons.prems have "frame \<in> set (concat (map (launch_block info draws) zs))" by simp
    from Cons.IH[OF this Cons.prems(2)] show ?thesis by auto
  qed
qed





lemma get_falling_commands_none:
  "get_objects_by_mass s m = Inr [] \<Longrightarrow> get_falling_commands rnd s m = Inl ValueError"
  by (simp add: get_falling_commands_def shuffle_def min_num_objects_def max_num_objects_def
      randint_def Let_def)

lemma get_falling_commands_ids:
  assumes "get_falling_commands rnd s m = Inr (cmds :: 'c command list list)"
    and "frame \<in> set cmds" and "Apply_force_to_object f k \<in> set frame"
  shows "\<exists>ids i p. get_objects_by_mass s m = Inr ids \<and> k \<in> set ids \<and>
           map_of (physics_info s) k = Some p \<and> f = force (uniform_draws rnd i) (mass p)"
proof -
  obtain ids where ids: "get_objects_by_mass s m = Inr ids"
    by (simp add: get_objects_by_mass_filter)
  have "(get_falling_commands rnd s m :: py_error + 'c command list list) = Inl ValueError"
    if "ids = []" using that ids by (simp add: get_falling_commands_none)
  then have ne: "ids \<noteq> []" using assms(1) by auto
  have "\<exists>n. min_num_objects ids \<le> int n \<and> int n \<le> max_num_objects ids \<and>
           (get_falling_commands rnd s m :: py_error + 'c command list list) =
             Inr (concat (map (launch_block (map_of (physics_info s)) (uniform_draws rnd))
                    (zip [0..<n] (take n (shuffle (shuffle_draws rnd) ids)))))"
    by (rule get_falling_commands_blocks[OF ids ne])
  with assms(1) obtain n where
    "cmds = concat (map (launch_block (map_of (physics_info s)) (uniform_draws rnd))
                    (zip [0..<n] (take n (shuffle (shuffle_draws rnd) ids))))"
    by auto
  with assms(2) have "frame \<in> set (concat (map (launch_block (map_of (physics_info s)) (uniform_draws rnd))
                    (zip [0..<n] (take n (shuffle (shuffle_draws rnd) ids)))))" by simp
  from blocks_force[OF this assms(3)] obtain i p where
    ip: "(i, k) \<in> set (zip [0..<n] (take n (shuffle (shuffle_draws rnd) ids)))"
      "map_of (physics_info s) k = Some p" "f = force (uniform_draws rnd i) (mass p)"
    by blast
  from ip(1) have "k \<in> set (shuffle (shuffle_draws rnd) ids)"
    by (meson in_set_takeD set_zip_rightD)
  then have "k \<in> set ids" by (simp add: shuffle_set)
  with ids ip show ?thesis by blast
qed


















lemma random_primitive_arrays:
  "masses (snd (random_primitive asc aco cr uid sr rc s ots scale color)) = masses s \<and>
   dynamic_frictions (snd (random_primitive asc aco cr uid sr rc s ots scale color)) = dynamic_frictions s \<and>
   static_frictions (snd (random_primitive asc aco cr uid sr rc s ots scale color)) = static_frictions s \<and>
   bouncinesses (snd (random_primitive asc aco cr uid sr rc s ots scale color)) = bouncinesses s"
  by (simp add: random_primitive_def Let_def split: list.splits)

lemma add_physics_object_arrays:
  "masses (snd (add_physics_object ato uid s rec pos rot m df sf bo o_id)) = masses s @ [m] \<and>
   dynamic_frictions (snd (add_physics_object ato uid s rec pos rot m df sf bo o_id)) =
     dynamic_frictions s @ [df] \<and>
   static_frictions (snd (add_physics_object ato uid s rec pos rot m df sf bo o_id)) =
     static_frictions s @ [sf] \<and>
   bouncinesses (snd (add_physics_object ato uid s rec pos rot m df sf bo o_id)) =
     bouncinesses s @ [bo]"
  by (simp add: add_physics_object_def Let_def split: prod.splits)

lemma add_physics_object_default_state:
  "snd (add_physics_object_default R ato uid s name pos rot o_id) =
     (case R name of
        None \<Rightarrow> s
      | Some info \<Rightarrow>
          snd (add_physics_object ato uid s (model_record info) pos rot (mass info)
                 (dynamic_friction info) (static_friction info) (bounciness info) o_id))"
  by (simp add: add_physics_object_default_def dict_get_def split: option.splits prod.splits)

lemma call_parallel:
  "parallel_with s objs \<Longrightarrow> parallel_with (call env c s) (added_by env c objs)"
proof (cases c)
  case Clear_static_data
  then show ?thesis by (simp add: parallel_with_def clear_static_data_def)
next
  case (Add_physics_object uid rec pos rot m df sf bo o_id)
  assume "parallel_with s objs"
  then show ?thesis
    using add_physics_object_arrays[of "env_add_transforms_object env" uid s rec pos rot m df sf bo o_id]
    by (simp add: parallel_with_def Add_physics_object)
next
  case (Add_physics_object_default uid name pos rot o_id)
  assume p: "parallel_with s objs"
  show ?thesis
  proof (cases "env_PHYSICS_INFO env name")
    case None
    with p show ?thesis
      by (simp add: Add_physics_object_default add_physics_object_default_state)
  next
    case (Some info)
    with p show ?thesis
      using add_physics_object_arrays[of "env_add_transforms_object env" uid s "model_record info"
          pos rot "mass info" "dynamic_friction info" "static_friction info" "bounciness info" o_id]
      by (simp add: parallel_with_def Add_physics_object_default
          add_physics_object_default_state)
  qed
next
  case (Random_primitive cr uid sr rc ots scale color)
  assume "parallel_with s objs"
  then show ?thesis
    using random_primitive_arrays[of "env_append_scale env" "env_append_color env" cr uid sr rc s
        ots scale color]
    by (simp add: parallel_with_def Random_primitive)
qed simp_all

lemma run_parallel:
  "parallel_with s objs \<Longrightarrow>
   parallel_with (fold (call env) calls s) (fold (added_by env) calls objs)"
  by (induction calls arbitrary: s objs) (simp_all add: call_parallel)

lemma init_parallel: "parallel_with (init clr b) []"
  by (simp add: parallel_with_def init_def clear_static_data_def)

lemma call_extends:
  assumes "c \<noteq> Clear_static_data"
  shows "\<exists>ms ds ss bs.
           masses (call env c s) = masses s @ ms \<and>
           dynamic_frictions (call env c s) = dynamic_frictions s @ ds \<and>
           static_frictions (call env c s) = static_frictions s @ ss \<and>
           bouncinesses (call env c s) = bouncinesses s @ bs \<and>
           length ms = length ds \<and> length ds = length ss \<and> length ss = length bs \<and>
           length bs \<le> 1"
proof (cases c)
  case Clear_static_data
  with assms show ?thesis by simp
next
  case (Add_physics_object uid rec pos rot m df sf bo o_id)
  show ?thesis
    using add_physics_object_arrays[of "env_add_transforms_object env" uid s rec pos rot m df sf bo o_id]
    by (simp add: Add_physics_object)
next
  case (Add_physics_object_default uid name pos rot o_id)
  show ?thesis
  proof (cases "env_PHYSICS_INFO env name")
    case None
    then show ?thesis
      by (simp add: Add_physics_object_default add_physics_object_default_state)
  next
    case (Some info)
    then show ?thesis
      using add_physics_object_arrays[of "env_add_transforms_object env" uid s "model_record info"
          pos rot "mass info" "dynamic_friction info" "static_friction info" "bounciness info" o_id]
      by (simp add: Add_physics_object_default add_physics_object_default_state)
  qed
next
  case (Random_primitive cr uid sr rc ots scale color)
  show ?thesis
    using random_primitive_arrays[of "env_append_scale env" "env_append_color env" cr uid sr rc s
        ots scale color]
    by (simp add: Random_primitive)
qed simp_all


lemma rigi_scan_step:
  "rigi_scan tr ((i, vel, ang, asleep) # es) d sl = Inr r \<Longrightarrow>
   rigi_scan tr es (d(i \<mapsto> (vel, ang))) (sl \<and> \<not> awake_above_abyss tr (i, vel, ang, asleep)) = Inr r"
  by (cases "tr i"; cases asleep)
     (simp_all add: dict_get_def awake_above_abyss_def Let_def split: if_splits)

lemma rigi_scan_result:
  "rigi_scan tr es d sl = Inr (d', sl') \<Longrightarrow>
   (sl' \<longleftrightarrow> sl \<and> (\<forall>e\<in>set es. \<not> awake_above_abyss tr e)) \<and> dom d' = dom d \<union> fst ` set es"
proof (induction es arbitrary: d sl)
  case Nil
  then show ?case by simp
next
  case (Cons e es)
  obtain i vel ang asleep where e: "e = (i, vel, ang, asleep)" by (cases e)
  from Cons.prems have
    "rigi_scan tr es (d(i \<mapsto> (vel, ang))) (sl \<and> \<not> awake_above_abyss tr e) = Inr (d', sl')"
    unfolding e by (rule rigi_scan_step)
  from Cons.IH[OF this]
  have 1: "sl' \<longleftrightarrow> (sl \<and> \<not> awake_above_abyss tr e) \<and> (\<forall>e\<in>set es. \<not> awake_above_abyss tr e)"
    and 2: "dom d' = dom (d(i \<mapsto> (vel, ang))) \<union> fst ` set es"
    by blast+
  from 1 have "sl' \<longleftrightarrow> sl \<and> (\<forall>x\<in>set (e # es). \<not> awake_above_abyss tr x)" by simp
  moreover from 2 have "dom d' = dom d \<union> fst ` set (e # es)" by (simp add: e)
  ultimately show ?case by blast
qed

lemma rigi_assign_keys:
  "rigi_assign d zs vels angs = Inr r \<Longrightarrow> fst ` set zs \<subseteq> dom d"
proof (induction zs arbitrary: vels angs)
  case Nil
  then show ?case by simp
next
  case (Cons z zs)
  obtain k i where z: "z = (k, i)" by (cases z)
  with Cons.prems obtain va where va: "d k = Some va"
    by (cases "d k") (auto simp add: dict_get_def)
  obtain vel ang where "va = (vel, ang)" by (cases va)
  with Cons.prems z va
  have "rigi_assign d zs (vels[i := Some vel]) (angs[i := Some ang]) = Inr r"
    by (simp add: dict_get_def)
  from Cons.IH[OF this] show ?case using z va by auto
qed

lemma read_message_sleeping:
  assumes "read_message object_ids tr r a = Inr a'"
  shows "(sleeping a' \<longleftrightarrow> sleeping a \<and> (\<forall>e\<in>set (entries_of r). \<not> awake_above_abyss tr e)) \<and>
         (\<forall>es. r = Rigi es \<longrightarrow> set object_ids \<subseteq> fst ` set es)"
proof (cases r)
  case (Rigi es)
  with assms obtain d sl where sc: "rigi_scan tr es Map.empty (sleeping a) = Inr (d, sl)"
    by (auto split: sum.splits)
  with assms Rigi obtain vels angs where
    asg: "rigi_assign d (zip object_ids [0..<length object_ids]) (velocities a)
            (angular_velocities a) = Inr (vels, angs)"
    and a': "a' = a\<lparr>velocities := vels, angular_velocities := angs, sleeping := sl\<rparr>"
    by (auto split: sum.splits)
  from rigi_scan_result[OF sc]
  have sl: "sl \<longleftrightarrow> sleeping a \<and> (\<forall>e\<in>set es. \<not> awake_above_abyss tr e)"
    and dm: "dom d = fst ` set es" by simp_all
  have "fst ` set (zip object_ids [0..<length object_ids]) = set object_ids"
    by (metis length_upt map_fst_zip minus_nat.diff_0 set_map)
  with rigi_assign_keys[OF asg] dm have "set object_ids \<subseteq> fst ` set es" by simp
  with sl a' Rigi show ?thesis by simp
next
  case (Coll c1 c2 rv cs)
  with assms show ?thesis by auto
next
  case (Enco k cs)
  with assms show ?thesis by auto
next
  case (Other_data x)
  with assms show ?thesis by auto
qed

lemma read_messages_sleeping:
  "read_messages object_ids tr rs a = Inr a' \<Longrightarrow>
   (sleeping a' \<longleftrightarrow> sleeping a \<and> (\<forall>e\<in>set (rigi_entries rs). \<not> awake_above_abyss tr e)) \<and>
   (\<forall>es. Rigi es \<in> set rs \<longrightarrow> set object_ids \<subseteq> fst ` set es)"
proof (induction rs arbitrary: a)
  case Nil
  then show ?case by (simp add: rigi_entries_def)
next
  case (Cons r rs)
  then obtain a1 where r: "read_message object_ids tr r a = Inr a1"
    and rs: "read_messages object_ids tr rs a1 = Inr a'"
    by (auto split: sum.splits)
  from read_message_sleeping[OF r] Cons.IH[OF rs] show ?case
    by (auto simp add: rigi_entries_def)
qed


lemma components_length: "length (components v) = 3"
  by (cases v) (simp add: components_def)

lemma append_contacts_size:
  "length (elems (append_contacts arr cs)) = length (elems arr) + 6 * length cs"
proof -
  have "length (elems (fold (\<lambda>(normal, point) a. np_append a (components normal @ components point)) cs arr))
      = length (elems arr) + 6 * length cs" for arr :: "real ndarray"
    by (induction cs arbitrary: arr)
      (auto simp add: np_append_def components_length split: prod.splits)
  then show ?thesis by (simp add: append_contacts_def)
qed

lemma read_message_sizes:
  assumes "read_message object_ids tr r a = Inr a'"
  shows "sizes a' = grown (sizes a) (contacts_of_collision r) (contacts_of_env_collision r) \<and>
         shape (env_collision_ids a') =
           (if contacts_of_env_collision r = [] then shape (env_collision_ids a)
            else [length (elems (env_collision_ids a'))])"
proof (cases r)
  case (Rigi es)
  with assms show ?thesis by (auto simp add: sizes_def grown_def split: sum.splits)
next
  case (Coll c1 c2 rv cs)
  with assms show ?thesis
    by (auto simp add: sizes_def grown_def np_append_def components_length append_contacts_size)
next
  case (Enco k cs)
  with assms show ?thesis
    by (auto simp add: sizes_def grown_def np_append_def append_contacts_size)
next
  case (Other_data x)
  with assms show ?thesis by (auto simp add: sizes_def grown_def)
qed

lemma grown_grown: "grown (grown z cs es) cs' es' = grown z (cs @ cs') (es @ es')"
  by (simp add: grown_def)

lemma read_messages_sizes:
  "read_messages object_ids tr rs a = Inr a' \<Longrightarrow>
   sizes a' = grown (sizes a) (collision_contact_counts rs) (env_collision_contact_counts rs) \<and>
   shape (env_collision_ids a') =
     (if env_collision_contact_counts rs = [] then shape (env_collision_ids a)
      else [length (elems (env_collision_ids a'))])"
proof (induction rs arbitrary: a)
  case Nil
  then show ?case
    by (simp add: collision_contact_counts_def env_collision_contact_counts_def grown_def)
next
  case (Cons r rs)
  then obtain a1 where r: "read_message object_ids tr r a = Inr a1"
    and rs: "read_messages object_ids tr rs a1 = Inr a'"
    by (auto split: sum.splits)
  note m = read_message_sizes[OF r] and i = Cons.IH[OF rs]
  have cc: "collision_contact_counts (r # rs) = contacts_of_collision r @ collision_contact_counts rs"
    "env_collision_contact_counts (r # rs) =
       contacts_of_env_collision r @ env_collision_contact_counts rs"
    by (simp_all add: collision_contact_counts_def env_collision_contact_counts_def)
  have 1: "sizes a' = grown (sizes a) (collision_contact_counts (r # rs))
                        (env_collision_contact_counts (r # rs))"
    using m i by (simp add: cc grown_grown)
  have 2: "shape (env_collision_ids a') =
     (if env_collision_contact_counts (r # rs) = [] then shape (env_collision_ids a)
      else [length (elems (env_collision_ids a'))])"
  proof (cases "env_collision_contact_counts rs = []")
    case True
    have "n_env (sizes a') = n_env (sizes a1)" using i True by (simp add: grown_def)
    then have "length (elems (env_collision_ids a')) = length (elems (env_collision_ids a1))"
      by (simp add: sizes_def)
    with m i True show ?thesis by (simp add: cc)
  next
    case False
    with i show ?thesis by (simp add: cc)
  qed
  from 1 2 show ?case by blast
qed


lemma reshape_infer_ok:
  "k \<noteq> 0 \<Longrightarrow> length (elems arr) = n * k \<Longrightarrow> prod_list inner = k \<Longrightarrow>
   reshape_infer inner arr = Inr \<lparr>shape = n # inner, elems = elems arr\<rparr>"
  by (simp add: reshape_infer_def Let_def)

lemma initial_sizes:
  "sizes (initial_arrays n) = \<lparr>n_ids = 0, n_rel = 0, n_con = 0, n_env = 0, n_econ = 0\<rparr>"
  "shape (env_collision_ids (initial_arrays n)) = [0, 1]"
  "sleeping (initial_arrays n)"
  by (simp_all add: sizes_def initial_arrays_def np_empty_def)

lemma write_frame_datasets:
  assumes "read_messages object_ids tr (butlast resp) (initial_arrays (length object_ids)) = Inr a"
  shows "write_frame object_ids tr resp =
    Inr (\<lparr>ds_velocities = velocities a,
          ds_angular_velocities = angular_velocities a,
          ds_collisions_object_ids =
            \<lparr>shape = [length (collision_contact_counts (butlast resp)), 2],
             elems = elems (collision_ids a)\<rparr>,
          ds_collisions_relative_velocities =
            \<lparr>shape = [length (collision_contact_counts (butlast resp)), 3],
             elems = elems (collision_relative_velocities a)\<rparr>,
          ds_collisions_contacts =
            \<lparr>shape = [sum_list (collision_contact_counts (butlast resp)), 2, 3],
             elems = elems (collision_contacts a)\<rparr>,
          ds_env_collisions_object_ids = env_collision_ids a,
          ds_env_collisions_contacts =
            \<lparr>shape = [sum_list (env_collision_contact_counts (butlast resp)), 2, 3],
             elems = elems (env_collision_contacts a)\<rparr>\<rparr>, sleeping a)"
proof -
  let ?cs = "collision_contact_counts (butlast resp)"
  let ?es = "env_collision_contact_counts (butlast resp)"
  from read_messages_sizes[OF assms]
  have "sizes a = grown \<lparr>n_ids = 0, n_rel = 0, n_con = 0, n_env = 0, n_econ = 0\<rparr> ?cs ?es"
    by (simp add: initial_sizes)
  then have sz: "length (elems (collision_ids a)) = length ?cs * 2"
    "length (elems (collision_relative_velocities a)) = length ?cs * 3"
    "length (elems (collision_contacts a)) = sum_list ?cs * 6"
    "length (elems (env_collision_contacts a)) = sum_list ?es * 6"
    by (simp_all add: grown_def sizes_def)
  have r1: "reshape_infer [2] (collision_ids a) =
      Inr \<lparr>shape = [length ?cs, 2], elems = elems (collision_ids a)\<rparr>"
    by (rule reshape_infer_ok[OF _ sz(1)]) simp_all
  have r2: "reshape_infer [3] (collision_relative_velocities a) =
      Inr \<lparr>shape = [length ?cs, 3], elems = elems (collision_relative_velocities a)\<rparr>"
    by (rule reshape_infer_ok[OF _ sz(2)]) simp_all
  have r3: "reshape_infer [2, 3] (collision_contacts a) =
      Inr \<lparr>shape = [sum_list ?cs, 2, 3], elems = elems (collision_contacts a)\<rparr>"
    by (rule reshape_infer_ok[OF _ sz(3)]) simp_all
  have r4: "reshape_infer [2, 3] (env_collision_contacts a) =
      Inr \<lparr>shape = [sum_list ?es, 2, 3], elems = elems (env_collision_contacts a)\<rparr>"
    by (rule reshape_infer_ok[OF _ sz(4)]) simp_all
  show ?thesis by (simp add: write_frame_def assms r1 r2 r3 r4)
qed

lemma write_frame_read:
  assumes "write_frame object_ids tr resp = Inr (ds, flag)"
  shows "\<exists>a. read_messages object_ids tr (butlast resp) (initial_arrays (length object_ids)) = Inr a"
  using assms by (auto simp add: write_frame_def split: sum.splits)



lemmas frame_eval =
  write_frame_def initial_arrays_def np_empty_def np_append_def append_contacts_def
  components_def reshape_infer_def dict_get_def Let_def


lemma example_asleep_frame:
  "write_frame [1] example_tr example_response_asleep =
     Inr (\<lparr>ds_velocities = [Some (0, 0, 0)], ds_angular_velocities = [Some (0, 0, 0)],
           ds_collisions_object_ids = \<lparr>shape = [0, 2], elems = []\<rparr>,
           ds_collisions_relative_velocities = \<lparr>shape = [0, 3], elems = []\<rparr>,
           ds_collisions_contacts = \<lparr>shape = [0, 2, 3], elems = []\<rparr>,
           ds_env_collisions_object_ids = \<lparr>shape = [0, 1], elems = []\<rparr>,
           ds_env_collisions_contacts = \<lparr>shape = [0, 2, 3], elems = []\<rparr>\<rparr>, True)"
  by (simp add: frame_eval example_tr_def example_response_asleep_def)





section \<open>Object creation: the claims\<close>

text \<open>
  C4: \<^verbatim>\<open>add_physics_object\<close> returns exactly three commands, in the order add-object
  (the command of the base class), set-mass, set-physic-material, for the id given or
  else the generated one; and each of the four static arrays is the old array with the
  scalar passed in appended.
\<close>

theorem add_physics_object_commands_and_arrays:
  "fst (add_physics_object ato uid s rec pos rot m df sf bo o_id) =
     [Base_command (fst (ato (base s) (case o_id of None \<Rightarrow> uid | Some i \<Rightarrow> i) rec pos rot)),
      Set_mass (case o_id of None \<Rightarrow> uid | Some i \<Rightarrow> i) m,
      Set_physic_material (case o_id of None \<Rightarrow> uid | Some i \<Rightarrow> i) df sf bo] \<and>
   length (fst (add_physics_object ato uid s rec pos rot m df sf bo o_id)) = 3 \<and>
   masses (snd (add_physics_object ato uid s rec pos rot m df sf bo o_id)) = masses s @ [m] \<and>
   dynamic_frictions (snd (add_physics_object ato uid s rec pos rot m df sf bo o_id)) =
     dynamic_frictions s @ [df] \<and>
   static_frictions (snd (add_physics_object ato uid s rec pos rot m df sf bo o_id)) =
     static_frictions s @ [sf] \<and>
   bouncinesses (snd (add_physics_object ato uid s rec pos rot m df sf bo o_id)) =
     bouncinesses s @ [bo]"
  by (simp add: add_physics_object_def Let_def split: prod.splits)

text \<open>
  C5: for a name registered in the physics-info registry,
  \<^verbatim>\<open>add_physics_object_default\<close> returns the commands, and leaves the state, that
  \<^verbatim>\<open>add_physics_object\<close> gives for the record and the four scalars of the registry's
  entry.
\<close>

theorem add_physics_object_default_refines:
  assumes "PHYSICS_INFO name = Some info"
  shows "add_physics_object_default PHYSICS_INFO ato uid s name pos rot o_id =
     (Inr (fst (add_physics_object ato uid s (model_record info) pos rot (mass info)
                 (dynamic_friction info) (static_friction info) (bounciness info) o_id)),
      snd (add_physics_object ato uid s (model_record info) pos rot (mass info)
                 (dynamic_friction info) (static_friction info) (bounciness info) o_id))"
  using assms by (simp add: add_physics_object_default_def dict_get_def split: prod.splits)

theorem add_physics_object_default_refines_witness:
  "example_registry ''chair'' =
     Some \<lparr>model_record = ''chair_01'', mass = 5, dynamic_friction = 0.3,
           static_friction = 0.4, bounciness = 0.2\<rparr> \<and>
   fst (add_physics_object_default example_registry example_add_transforms_object 7
          (init id []) ''chair'' (0, 0, 0) (0, 0, 0) None) =
     Inr [Base_command (7, ''chair_01''), Set_mass 7 5, Set_physic_material 7 0.3 0.4 0.2] \<and>
   masses (snd (add_physics_object_default example_registry example_add_transforms_object 7
          (init id []) ''chair'' (0, 0, 0) (0, 0, 0) None)) = [5]"
proof -
  have h: "example_registry ''chair'' =
     Some \<lparr>model_record = ''chair_01'', mass = 5, dynamic_friction = 0.3,
           static_friction = 0.4, bounciness = 0.2\<rparr>"
    by (simp add: example_registry_def)
  show ?thesis
    using h add_physics_object_default_refines
        [where PHYSICS_INFO = example_registry and name = "''chair''"
           and ato = example_add_transforms_object and uid = 7 and s = "init id []"
           and pos = "(0, 0, 0)" and rot = "(0, 0, 0)" and o_id = None, OF h]
    by (simp add: add_physics_object_def example_add_transforms_object_def init_def
        clear_static_data_def)
qed

text \<open>
  C6: \<^verbatim>\<open>add_physics_object_default\<close> fails if and only if the name is absent from the
  registry; the error is then the missing-key error and the state (the static arrays
  and the physics-info dict with it) is the one before the call.
\<close>

theorem add_physics_object_default_lookup_error:
  "((\<exists>e. fst (add_physics_object_default R ato uid s name pos rot o_id) = Inl e) \<longleftrightarrow>
      R name = None) \<and>
   (\<forall>e. fst (add_physics_object_default R ato uid s name pos rot o_id) = Inl e \<longrightarrow>
      e = KeyError \<and> snd (add_physics_object_default R ato uid s name pos rot o_id) = s)"
  by (auto simp add: add_physics_object_default_def dict_get_def split: prod.splits option.splits)

theorem add_physics_object_default_lookup_error_witness:
  "example_registry ''table'' = None \<and>
   add_physics_object_default example_registry example_add_transforms_object 7
     (init id []) ''table'' (0, 0, 0) (0, 0, 0) None = (Inl KeyError, init id [])"
proof -
  have h: "example_registry ''table'' = None"
    by (simp add: example_registry_def)
  show ?thesis
    using h add_physics_object_default_lookup_error
        [of example_registry example_add_transforms_object 7 "init id []" "''table''"
          "(0, 0, 0)" "(0, 0, 0)" None]
    by (metis prod.collapse)
qed

section \<open>Force-application scheduling: the claims\<close>

text \<open>
  C9: \<^verbatim>\<open>get_objects_by_mass\<close> returns the keys of the physics-info dict, in its order,
  whose mass is strictly below the threshold, and nothing else: an object whose mass
  equals the threshold is not returned, and every force that \<^verbatim>\<open>get_falling_commands\<close>
  emits is for an object whose mass is strictly below the threshold.
\<close>

theorem get_objects_by_mass_strict:
  "(\<exists>ids. get_objects_by_mass s m = Inr ids \<and>
      ids = filter (\<lambda>k. case map_of (physics_info s) k of None \<Rightarrow> False | Some p \<Rightarrow> mass p < m)
              (map fst (physics_info s)) \<and>
      set ids = {k. \<exists>p. map_of (physics_info s) k = Some p \<and> mass p < m} \<and>
      (\<forall>k p. map_of (physics_info s) k = Some p \<and> mass p = m \<longrightarrow> k \<notin> set ids)) \<and>
   (\<forall>(cmds :: 'c command list list) frame f k.
      get_falling_commands rnd s m = Inr cmds \<and> frame \<in> set cmds \<and>
      Apply_force_to_object f k \<in> set frame \<longrightarrow>
      (\<exists>p. map_of (physics_info s) k = Some p \<and> mass p < m \<and> mass p \<noteq> m))"
proof -
  let ?ids = "filter (\<lambda>k. case map_of (physics_info s) k of None \<Rightarrow> False | Some p \<Rightarrow> mass p < m)
              (map fst (physics_info s))"
  have g: "get_objects_by_mass s m = Inr ?ids" by (rule get_objects_by_mass_filter)
  have st: "set ?ids = {k. \<exists>p. map_of (physics_info s) k = Some p \<and> mass p < m}"
  proof (rule set_eqI)
    fix k
    show "k \<in> set ?ids \<longleftrightarrow> k \<in> {k. \<exists>p. map_of (physics_info s) k = Some p \<and> mass p < m}"
    proof (cases "map_of (physics_info s) k")
      case None
      then show ?thesis by simp
    next
      case (Some p)
      then have "k \<in> fst ` set (physics_info s)"
        by (metis domI dom_map_of_conv_image_fst)
      with Some show ?thesis by simp
    qed
  qed
  have eqm: "\<forall>k p. map_of (physics_info s) k = Some p \<and> mass p = m \<longrightarrow> k \<notin> set ?ids"
    unfolding st by auto
  have frc: "\<exists>p. map_of (physics_info s) k = Some p \<and> mass p < m \<and> mass p \<noteq> m"
    if "get_falling_commands rnd s m = Inr (cmds :: 'c command list list)" "frame \<in> set cmds"
      "Apply_force_to_object f k \<in> set frame" for cmds frame f k
  proof -
    from get_falling_commands_ids[OF that] g have "k \<in> set ?ids" by auto
    then show ?thesis unfolding st by auto
  qed
  show ?thesis using g st eqm frc by blast
qed

theorem get_objects_by_mass_strict_witness:
  "map_of (physics_info example_dataset) 2 =
     Some \<lparr>model_record = ''chair_01'', mass = 5, dynamic_friction = 0.3,
           static_friction = 0.4, bounciness = 0.2\<rparr> \<and>
   get_objects_by_mass example_dataset 5 = Inr [1] \<and> 2 \<notin> set [1::int] \<and>
   get_objects_by_mass example_dataset 6 = Inr [1, 2]"
  using get_objects_by_mass_strict [of example_dataset 5 example_draws]
    get_objects_by_mass_strict [of example_dataset 6 example_draws]
  by (simp add: example_dataset_def get_objects_by_mass_filter)

text \<open>
  C10: when no object of the physics-info dict has a mass below the threshold, the
  bounds of the random count are 1 and 0, \<^verbatim>\<open>randint(1, 0)\<close> raises \<^verbatim>\<open>ValueError\<close>, and
  so does \<^verbatim>\<open>get_falling_commands\<close>: it does not return an empty list of frames.
\<close>

theorem get_falling_commands_no_small_object:
  assumes "\<forall>k p. map_of (physics_info s) k = Some p \<longrightarrow> \<not> mass p < m"
  shows "get_objects_by_mass s m = Inr [] \<and>
         min_num_objects [] = 1 \<and> max_num_objects [] = 0 \<and>
         randint (randint_draw rnd) 1 0 = Inl ValueError \<and>
         (get_falling_commands rnd s m :: py_error + 'c command list list) = Inl ValueError"
proof -
  have "filter (\<lambda>k. case map_of (physics_info s) k of None \<Rightarrow> False | Some p \<Rightarrow> mass p < m)
              (map fst (physics_info s)) = []"
    using assms by (auto simp add: filter_empty_conv split: option.splits)
  then have g: "get_objects_by_mass s m = Inr []" by (simp add: get_objects_by_mass_filter)
  show ?thesis using g get_falling_commands_none[OF g]
    by (simp add: min_num_objects_def max_num_objects_def randint_def)
qed

theorem get_falling_commands_no_small_object_witness:
  "get_objects_by_mass example_dataset 1 = Inr [] \<and>
   (get_falling_commands example_draws example_dataset 1
      :: py_error + unit command list list) = Inl ValueError"
proof -
  have h: "\<forall>k p. map_of (physics_info example_dataset) k = Some p \<longrightarrow> \<not> mass p < 1"
    by (auto simp add: example_dataset_def split: if_splits)
  show ?thesis
    using get_falling_commands_no_small_object [OF h, of example_draws, where ?'c = unit]
    by simp
qed



section \<open>Static data: the claim\<close>

text \<open>
  C8: after any sequence of calls on a new dataset, the four static arrays hold,
  position by position and in the order of creation, the scalars of the objects added
  by \<^verbatim>\<open>add_physics_object\<close> since the last \<^verbatim>\<open>clear_static_data\<close>, so each has as many
  elements as objects were added; and a call other than \<^verbatim>\<open>clear_static_data\<close> leaves
  every array as a prefix of the new one, with at most one element more, the same
  number for the four arrays: nothing is removed or overwritten.
\<close>

theorem static_arrays_parallel:
  "parallel_with (fold (call env) calls (init (env_clear_static_data env) b))
      (objects_added env calls) \<and>
   length (masses (fold (call env) calls (init (env_clear_static_data env) b))) =
     length (objects_added env calls) \<and>
   length (static_frictions (fold (call env) calls (init (env_clear_static_data env) b))) =
     length (objects_added env calls) \<and>
   length (dynamic_frictions (fold (call env) calls (init (env_clear_static_data env) b))) =
     length (objects_added env calls) \<and>
   length (bouncinesses (fold (call env) calls (init (env_clear_static_data env) b))) =
     length (objects_added env calls) \<and>
   (\<forall>c s. c \<noteq> Clear_static_data \<longrightarrow>
      (\<exists>ms ds ss bs.
           masses (call env c s) = masses s @ ms \<and>
           dynamic_frictions (call env c s) = dynamic_frictions s @ ds \<and>
           static_frictions (call env c s) = static_frictions s @ ss \<and>
           bouncinesses (call env c s) = bouncinesses s @ bs \<and>
           length ms = length ds \<and> length ds = length ss \<and> length ss = length bs \<and>
           length bs \<le> 1))"
proof -
  have p: "parallel_with (fold (call env) calls (init (env_clear_static_data env) b))
      (objects_added env calls)"
    unfolding objects_added_def by (rule run_parallel[OF init_parallel])
  then have l: "length (masses (fold (call env) calls (init (env_clear_static_data env) b))) =
     length (objects_added env calls)"
   "length (static_frictions (fold (call env) calls (init (env_clear_static_data env) b))) =
     length (objects_added env calls)"
   "length (dynamic_frictions (fold (call env) calls (init (env_clear_static_data env) b))) =
     length (objects_added env calls)"
   "length (bouncinesses (fold (call env) calls (init (env_clear_static_data env) b))) =
     length (objects_added env calls)"
    by (simp_all add: parallel_with_def)
  show ?thesis using p l call_extends[of _ env] by blast
qed

theorem static_arrays_parallel_witness:
  "objects_added example_environment example_calls = [(2, 0.1, 0.2, 0.5)] \<and>
   masses (fold (call example_environment) example_calls (init (\<lambda>b. []) [])) = [2] \<and>
   bouncinesses (fold (call example_environment) example_calls (init (\<lambda>b. []) [])) = [0.5] \<and>
   objects_added example_environment (take 2 example_calls) = [(1, 0.1, 0.2, 0.5), (5, 0.3, 0.4, 0.2)] \<and>
   masses (fold (call example_environment) (take 2 example_calls) (init (\<lambda>b. []) [])) = [1, 5]"
proof -
  have e: "env_clear_static_data example_environment = (\<lambda>b. [])"
    by (simp add: example_environment_def)
  have a: "objects_added example_environment example_calls = [(2, 0.1, 0.2, 0.5)]"
    "objects_added example_environment (take 2 example_calls) =
       [(1, 0.1, 0.2, 0.5), (5, 0.3, 0.4, 0.2)]"
    by (simp_all add: objects_added_def example_calls_def example_environment_def
        example_registry_def)
  show ?thesis
    using static_arrays_parallel [of example_environment example_calls "[]"]
      static_arrays_parallel [of example_environment "take 2 example_calls" "[]"]
    by (simp add: a e parallel_with_def)
qed

section \<open>Forces: the claim\<close>




section \<open>Frame data extraction: the claims\<close>

text \<open>
  C1, as stated, fails in both directions. For a response without a rigid-body message
  the flag is true, although the tracked object 1, at \<open>y = 0\<close>, was not reported asleep.
  For a response whose rigid-body message reports the tracked object 1 asleep and an
  object 2 that is not tracked awake at \<open>y = 0\<close>, the flag is false, although every
  tracked object was reported asleep.
\<close>

theorem write_frame_done_counterexample:
  "write_frame [1] example_tr example_response_no_rigi =
     Inr (\<lparr>ds_velocities = [None], ds_angular_velocities = [None],
           ds_collisions_object_ids = \<lparr>shape = [0, 2], elems = []\<rparr>,
           ds_collisions_relative_velocities = \<lparr>shape = [0, 3], elems = []\<rparr>,
           ds_collisions_contacts = \<lparr>shape = [0, 2, 3], elems = []\<rparr>,
           ds_env_collisions_object_ids = \<lparr>shape = [0, 1], elems = []\<rparr>,
           ds_env_collisions_contacts = \<lparr>shape = [0, 2, 3], elems = []\<rparr>\<rparr>, True) \<and>
   above_abyss example_tr 1 \<and>
   \<not> reported_asleep example_response_no_rigi 1 \<and>
   \<not> all_tracked_asleep [1] example_tr example_response_no_rigi \<and>
   write_frame [1] example_tr example_response_untracked =
     Inr (\<lparr>ds_velocities = [Some (0, 0, 0)], ds_angular_velocities = [Some (0, 0, 0)],
           ds_collisions_object_ids = \<lparr>shape = [0, 2], elems = []\<rparr>,
           ds_collisions_relative_velocities = \<lparr>shape = [0, 3], elems = []\<rparr>,
           ds_collisions_contacts = \<lparr>shape = [0, 2, 3], elems = []\<rparr>,
           ds_env_collisions_object_ids = \<lparr>shape = [0, 1], elems = []\<rparr>,
           ds_env_collisions_contacts = \<lparr>shape = [0, 2, 3], elems = []\<rparr>\<rparr>, False) \<and>
   reported_asleep example_response_untracked 1 \<and>
   all_tracked_asleep [1] example_tr example_response_untracked"
  by (simp add: frame_eval example_tr_def example_response_no_rigi_def
      example_response_untracked_def above_abyss_def reported_asleep_def rigi_entries_def
      all_tracked_asleep_def)

text \<open>
  C1, amended: when \<^verbatim>\<open>_write_frame\<close> returns, the flag is true if and only if no entry of
  a rigid-body message among \<^verbatim>\<open>resp[:-1]\<close> is awake with its object at \<open>y \<ge> -1\<close>; every
  such message has an entry for each tracked object; without any entry the flag is
  true. When the response has a rigid-body message, the entries are for tracked objects
  only and no id has two entries, the flag is true if and only if every tracked object
  at \<open>y \<ge> -1\<close> was reported asleep.
\<close>

theorem write_frame_done:
  assumes "write_frame object_ids tr resp = Inr (ds, flag)"
  shows "(flag \<longleftrightarrow> (\<forall>e\<in>set (rigi_entries (butlast resp)). \<not> awake_above_abyss tr e)) \<and>
         (\<forall>es. Rigi es \<in> set (butlast resp) \<longrightarrow> set object_ids \<subseteq> fst ` set es) \<and>
         (rigi_entries (butlast resp) = [] \<longrightarrow> flag) \<and>
         ((\<exists>es. Rigi es \<in> set (butlast resp)) \<and>
          fst ` set (rigi_entries (butlast resp)) \<subseteq> set object_ids \<and>
          distinct (map fst (rigi_entries (butlast resp))) \<longrightarrow>
          (flag \<longleftrightarrow> all_tracked_asleep object_ids tr (butlast resp)))"
proof -
  let ?rs = "butlast resp"
  from write_frame_read[OF assms] obtain a where
    a: "read_messages object_ids tr ?rs (initial_arrays (length object_ids)) = Inr a"
    by blast
  from write_frame_datasets[OF a] assms have d: "flag = sleeping a" by simp
  from read_messages_sleeping[OF a]
  have 1: "flag \<longleftrightarrow> (\<forall>e\<in>set (rigi_entries ?rs). \<not> awake_above_abyss tr e)"
    and 2: "\<forall>es. Rigi es \<in> set ?rs \<longrightarrow> set object_ids \<subseteq> fst ` set es"
    by (simp_all add: d initial_sizes)
  have 3: "rigi_entries ?rs = [] \<longrightarrow> flag" using 1 by simp
  have 4: "flag \<longleftrightarrow> all_tracked_asleep object_ids tr ?rs"
    if ex: "\<exists>es. Rigi es \<in> set ?rs"
      and sub: "fst ` set (rigi_entries ?rs) \<subseteq> set object_ids"
      and dist: "distinct (map fst (rigi_entries ?rs))"
  proof
    assume "flag"
    show "all_tracked_asleep object_ids tr ?rs"
      unfolding all_tracked_asleep_def list_all_iff
    proof
      fix k assume k: "k \<in> set object_ids"
      from ex obtain es where es: "Rigi es \<in> set ?rs" by blast
      with 2 k have "k \<in> fst ` set es" by blast
      then obtain e where e: "e \<in> set es" "fst e = k" by auto
      from es e(1) have in_all: "e \<in> set (rigi_entries ?rs)"
        by (force simp add: rigi_entries_def)
      with 1 \<open>flag\<close> have na: "\<not> awake_above_abyss tr e" by blast
      show "\<not> above_abyss tr k \<or> reported_asleep ?rs k"
      proof (cases "above_abyss tr k")
        case True
        with na e(2) have "snd (snd (snd e))"
          by (cases e) (auto simp add: awake_above_abyss_def above_abyss_def)
        with in_all e(2) show ?thesis by (auto simp add: reported_asleep_def)
      next
        case False
        then show ?thesis by simp
      qed
    qed
  next
    assume all: "all_tracked_asleep object_ids tr ?rs"
    have "\<not> awake_above_abyss tr e" if e: "e \<in> set (rigi_entries ?rs)" for e
    proof
      assume aw: "awake_above_abyss tr e"
      obtain i vel ang asleep where ee: "e = (i, vel, ang, asleep)" by (cases e)
      from aw ee have "\<not> asleep" and ab: "above_abyss tr i"
        by (simp_all add: awake_above_abyss_def above_abyss_def)
      from e sub ee have "i \<in> set object_ids" by force
      with all ab have "reported_asleep ?rs i"
        by (auto simp add: all_tracked_asleep_def list_all_iff)
      then obtain e' where e': "e' \<in> set (rigi_entries ?rs)" "fst e' = i" "snd (snd (snd e'))"
        by (auto simp add: reported_asleep_def)
      obtain v' where v': "e' = (i, v')" using e'(2) by (cases e') auto
      from dist e e'(1) ee v' have "v' = (vel, ang, asleep)"
        by (metis eq_key_imp_eq_value)
      with e'(3) v' \<open>\<not> asleep\<close> show False by simp
    qed
    with 1 show "flag" by blast
  qed
  from 1 2 3 4 show ?thesis by blast
qed

theorem write_frame_done_witness:
  "write_frame [1] example_tr example_response_asleep =
     Inr (\<lparr>ds_velocities = [Some (0, 0, 0)], ds_angular_velocities = [Some (0, 0, 0)],
           ds_collisions_object_ids = \<lparr>shape = [0, 2], elems = []\<rparr>,
           ds_collisions_relative_velocities = \<lparr>shape = [0, 3], elems = []\<rparr>,
           ds_collisions_contacts = \<lparr>shape = [0, 2, 3], elems = []\<rparr>,
           ds_env_collisions_object_ids = \<lparr>shape = [0, 1], elems = []\<rparr>,
           ds_env_collisions_contacts = \<lparr>shape = [0, 2, 3], elems = []\<rparr>\<rparr>, True) \<and>
   Rigi [(1, (0, 0, 0), (0, 0, 0), True)] \<in> set (butlast example_response_asleep) \<and>
   fst ` set (rigi_entries (butlast example_response_asleep)) \<subseteq> set [1] \<and>
   distinct (map fst (rigi_entries (butlast example_response_asleep))) \<and>
   all_tracked_asleep [1] example_tr (butlast example_response_asleep)"
proof -
  have r: "Rigi [(1, (0, 0, 0), (0, 0, 0), True)] \<in> set (butlast example_response_asleep)"
    "fst ` set (rigi_entries (butlast example_response_asleep)) \<subseteq> set [1]"
    "distinct (map fst (rigi_entries (butlast example_response_asleep)))"
    by (simp_all add: example_response_asleep_def rigi_entries_def)
  from r(1) have ex: "\<exists>es. Rigi es \<in> set (butlast example_response_asleep)" by blast
  from write_frame_done [OF example_asleep_frame] ex r(2,3)
  have "all_tracked_asleep [1] example_tr (butlast example_response_asleep)" by blast
  with example_asleep_frame r show ?thesis by simp
qed




end
